theory Spec2Isabelle
  imports Complex_Main "HOL-Library.Log_Nat"
begin

section \<open>Python floats\<close>

text \<open>
  The storefront computes its money amounts with Python floats (IEEE 754 binary64,
  round to nearest, ties to even). A float is modelled by the rational number it denotes,
  or by one of the three special values. The model identifies \<open>-0.0\<close> with \<open>0.0\<close>, as
  Python's \<open>==\<close> does; no branch of the program tells them apart.
\<close>

datatype pyfloat = Finite rat | PInf | NInf | NaN

definition round_half_even :: "rat \<Rightarrow> int" where
  "round_half_even q =
     (let f = \<lfloor>q\<rfloor>; r = q - of_int f
      in if r < 1 / 2 then f else if 1 / 2 < r then f + 1 else if even f then f else f + 1)"

text \<open>The binary exponent of a positive rational: \<open>2 powi ilog2 q \<le> q < 2 powi (ilog2 q + 1)\<close>.\<close>

definition ilog2 :: "rat \<Rightarrow> int" where
  "ilog2 q = (let (a, b) = quotient_of q; k = bitlen a - bitlen b
              in if 2 powi k \<le> q then k else k - 1)"

text \<open>
  Rounding an exact result to the nearest binary64 value: 53 significant bits, the
  least exponent of a unit in the last place \<open>-1074\<close> (subnormals), overflow to an infinity
  from \<open>2 ^ 1024\<close> on.
\<close>

definition rnd :: "rat \<Rightarrow> pyfloat" where
  "rnd q =
     (if q = 0 then Finite 0
      else let e = max (ilog2 \<bar>q\<bar> - 52) (- 1074);
               m = round_half_even (q / 2 powi e)
           in if 971 < e \<or> (e = 971 \<and> 2 ^ 53 \<le> \<bar>m\<bar>) then (if 0 < q then PInf else NInf)
              else Finite (of_int m * 2 powi e))"

fun fadd :: "pyfloat \<Rightarrow> pyfloat \<Rightarrow> pyfloat" where
  "fadd (Finite a) (Finite b) = rnd (a + b)"
| "fadd NaN _ = NaN"
| "fadd _ NaN = NaN"
| "fadd PInf NInf = NaN"
| "fadd NInf PInf = NaN"
| "fadd PInf _ = PInf"
| "fadd _ PInf = PInf"
| "fadd NInf _ = NInf"
| "fadd _ NInf = NInf"

definition inf_of_sign :: "bool \<Rightarrow> pyfloat" where
  "inf_of_sign positive = (if positive then PInf else NInf)"

fun fmul :: "pyfloat \<Rightarrow> pyfloat \<Rightarrow> pyfloat" where
  "fmul (Finite a) (Finite b) = rnd (a * b)"
| "fmul NaN _ = NaN"
| "fmul _ NaN = NaN"
| "fmul PInf (Finite b) = (if b = 0 then NaN else inf_of_sign (0 < b))"
| "fmul NInf (Finite b) = (if b = 0 then NaN else inf_of_sign (b < 0))"
| "fmul (Finite a) PInf = (if a = 0 then NaN else inf_of_sign (0 < a))"
| "fmul (Finite a) NInf = (if a = 0 then NaN else inf_of_sign (a < 0))"
| "fmul PInf PInf = PInf"
| "fmul NInf NInf = PInf"
| "fmul PInf NInf = NInf"
| "fmul NInf PInf = NInf"

text \<open>\<open>x >= y\<close>: every comparison with a NaN is false.\<close>

fun fge :: "pyfloat \<Rightarrow> pyfloat \<Rightarrow> bool" where
  "fge (Finite a) (Finite b) = (b \<le> a)"
| "fge NaN _ = False"
| "fge _ NaN = False"
| "fge PInf _ = True"
| "fge _ NInf = True"
| "fge _ _ = False"

text \<open>
  The exceptions the two handlers meet: InvalidId of bson, ValidationError of pydantic (with
  the names of the fields that fail), OverflowError of the float conversion,
  NotImplementedError of a truth test that a database handle refuses, and the error of a
  store that is not available.
\<close>

datatype exn = InvalidId string | ValidationError "string list" | OverflowError
  | NotImplementedError | StoreError

datatype detail = Msg string | ExnText exn

text \<open>\<open>HTTPException(status_code, detail)\<close>; \<open>ExnText e\<close> stands for \<open>str(e)\<close>.\<close>

datatype failure = HTTPException nat detail

text \<open>
  \<open>float * int\<close> converts the integer first: correctly rounded, and an OverflowError
  (``int too large to convert to float'') when it is beyond the float range.
\<close>

definition float_of_int :: "int \<Rightarrow> exn + pyfloat" where
  "float_of_int n = (case rnd (of_int n) of Finite v \<Rightarrow> Inr (Finite v) | _ \<Rightarrow> Inl OverflowError)"

text \<open>
  \<open>round(x, 2)\<close>: the exact value of \<open>x\<close> is rounded half-even to two decimals and the
  decimal result converted to the nearest float; infinities and NaN round to themselves.
\<close>

fun py_round2 :: "pyfloat \<Rightarrow> pyfloat" where
  "py_round2 (Finite x) = rnd (of_int (round_half_even (x * 100)) / 100)"
| "py_round2 x = x"

section \<open>Schemas and stores\<close>

text \<open>
  A document of the \<open>product\<close> collection: the store-assigned \<open>_id\<close> (written as its
  24-digit lower-case hex string, which is what \<open>str(p["_id"])\<close> gives) and the fields of the
  \<open>Product\<close> schema. \<open>title\<close> and \<open>price\<close> are read with \<open>dict.get\<close>, so they may
  be absent.
\<close>

record product_doc =
  p_id :: string
  p_title :: "string option"
  p_description :: "string option"
  p_price :: "pyfloat option"
  p_category :: string
  p_in_stock :: bool
  p_image :: "string option"
  p_sku :: "string option"
  p_weight_g :: "int option"

record OrderItem =
  oi_product_id :: string
  oi_title :: string
  oi_price :: pyfloat
  oi_quantity :: int

record Order =
  customer_name :: string
  email :: string
  phone :: string
  address_line :: string
  city :: string
  pincode :: string
  payment_method :: string
  items :: "OrderItem list"
  subtotal :: pyfloat
  shipping :: pyfloat
  total :: pyfloat
  status :: string

record CartItem =
  ci_product_id :: string
  ci_quantity :: int

record CheckoutRequest =
  req_name :: string
  req_email :: string
  req_phone :: string
  req_address_line :: string
  req_city :: string
  req_pincode :: string
  req_payment_method :: string
  cart :: "CartItem list"

text \<open>The database: the \<open>product\<close> collection and the \<open>order\<close> collection, in insertion order.\<close>

record db =
  product_coll :: "product_doc list"
  order_coll :: "(string \<times> Order) list"

text \<open>
  The global \<open>db\<close> of the \<open>database\<close> module, which is not among the sources: it is
  \<open>None\<close> when no database is configured, and a pymongo database handle otherwise. What
  \<open>bool(db)\<close> does with a handle is the library's business: from pymongo 4.0 on a handle
  refuses the truth test with NotImplementedError (``Database objects do not implement truth
  value testing or bool(). Please compare with None instead''), before that it is true as any
  object is. \<open>PymongoDb testable\<close> is a handle, \<open>testable\<close> telling which of the two.
\<close>

datatype db_handle = NoDb | PymongoDb bool

fun db_truth :: "db_handle \<Rightarrow> exn + bool" where
  "db_truth NoDb = Inr False"
| "db_truth (PymongoDb testable) = (if testable then Inr True else Inl NotImplementedError)"

text \<open>
  Modelled from the spec: \<open>create_document\<close> of the \<open>database\<close> module, which is not among
  the sources. The spec gives its contract as \<open>insert(x) \<rightarrow> identifier\<close>: it persists the new
  document and returns the identifier the store assigned; a store that is not available
  surfaces as an error. The identifier is the store's choice, so it is an argument here. For
  the order collection the store is taken to be available.
\<close>

definition create_order_document :: "db \<Rightarrow> string \<Rightarrow> Order \<Rightarrow> string \<times> db" where
  "create_order_document d new_id ord = (new_id, d\<lparr>order_coll := order_coll d @ [(new_id, ord)]\<rparr>)"

definition create_product_document :: "db_handle \<Rightarrow> db \<Rightarrow> product_doc \<Rightarrow> exn + (string \<times> db)" where
  "create_product_document h d doc =
     (case h of
        NoDb \<Rightarrow> Inl StoreError
      | PymongoDb _ \<Rightarrow> Inr (p_id doc, d\<lparr>product_coll := product_coll d @ [doc]\<rparr>))"

section \<open>Seeding\<close>

record seed_result =
  inserted :: nat
  message :: "string option"

definition seed_skus :: "string list" where
  "seed_skus = [''JAG-500'', ''JAG-1000'']"

definition seed_p1 :: "string \<Rightarrow> product_doc" where
  "seed_p1 new_id =
     \<lparr>p_id = new_id,
      p_title = Some ''Jaggery Powder 500g'',
      p_description = Some ''Pure, chemical-free jaggery powder. Perfect for tea, coffee and cooking.'',
      p_price = Some (rnd (249 / 100)),
      p_category = ''jaggery'',
      p_in_stock = True,
      p_image = Some ''/jaggery-500.jpg'',
      p_sku = Some ''JAG-500'',
      p_weight_g = Some 500\<rparr>"

definition seed_p2 :: "string \<Rightarrow> product_doc" where
  "seed_p2 new_id =
     \<lparr>p_id = new_id,
      p_title = Some ''Jaggery Powder 1kg'',
      p_description = Some ''Pure, chemical-free jaggery powder family pack.'',
      p_price = Some (rnd (449 / 100)),
      p_category = ''jaggery'',
      p_in_stock = True,
      p_image = Some ''/jaggery-1000.jpg'',
      p_sku = Some ''JAG-1000'',
      p_weight_g = Some 1000\<rparr>"

text \<open>\<open>db["product"].find({"sku": {"$in": ["JAG-500", "JAG-1000"]}})\<close>\<close>

definition find_by_skus :: "db \<Rightarrow> string list \<Rightarrow> product_doc list" where
  "find_by_skus d skus =
     filter (\<lambda>doc. case p_sku doc of None \<Rightarrow> False | Some s \<Rightarrow> s \<in> set skus) (product_coll d)"

text \<open>
  \<open>seed_products\<close>; \<open>id1\<close> and \<open>id2\<close> are the identifiers the store assigns to the two
  documents if they are inserted. The existence query runs only \<open>if db\<close>, a truth test of
  the handle. The two \<open>Product\<close> values are built from constants that satisfy the schema,
  so their construction does not raise. Any exception leaves as a 500 carrying its text; the
  two inserts are not one transaction, so a failure of the second would leave the first.
\<close>

definition seed_products :: "db_handle \<Rightarrow> db \<Rightarrow> string \<Rightarrow> string \<Rightarrow> (failure + seed_result) \<times> db" where
  "seed_products h d id1 id2 =
     (case db_truth h of
        Inl e \<Rightarrow> (Inl (HTTPException 500 (ExnText e)), d)
      | Inr truthy \<Rightarrow>
          let existing = (if truthy then find_by_skus d seed_skus else [])
          in if existing \<noteq> [] then
               (Inr \<lparr>inserted = 0, message = Some ''Products already exist''\<rparr>, d)
             else
               (case create_product_document h d (seed_p1 id1) of
                  Inl e \<Rightarrow> (Inl (HTTPException 500 (ExnText e)), d)
                | Inr (_, d1) \<Rightarrow>
                    (case create_product_document h d1 (seed_p2 id2) of
                       Inl e \<Rightarrow> (Inl (HTTPException 500 (ExnText e)), d1)
                     | Inr (_, d2) \<Rightarrow> (Inr \<lparr>inserted = 2, message = None\<rparr>, d2))))"

section \<open>Checkout\<close>

record payment_info =
  provider :: string
  pay_status :: string
  transaction_id :: string

record checkout_result =
  order_id :: string
  res_total :: pyfloat
  res_status :: string
  payment :: "payment_info option"

text \<open>
  \<open>ObjectId(s)\<close> of the bson library, for a string: the string is accepted when
  \<open>len(s) == 24\<close> and \<open>bytes.fromhex(s)\<close> does not raise, and InvalidId is raised
  otherwise. \<open>bytes.fromhex\<close> reads two adjacent hex digits per byte and skips ASCII
  whitespace before each byte and at the end, so an accepted string need not hold twelve
  bytes. The identifier is kept as the string \<open>str\<close> gives for it: the hex digits of its
  bytes, in lower case. A character of the model is one of Python's below 256; \<open>fromhex\<close>
  raises on any that is not ASCII.
\<close>

definition is_hex :: "char \<Rightarrow> bool" where
  "is_hex c = (c \<in> set ''0123456789abcdefABCDEF'')"

definition is_space :: "char \<Rightarrow> bool" where
  "is_space c = (c \<in> {CHR 0x20, CHR 0x09, CHR 0x0A, CHR 0x0B, CHR 0x0C, CHR 0x0D})"

definition hex_lower :: "char \<Rightarrow> char" where
  "hex_lower c = (case map_of (zip ''ABCDEF'' ''abcdef'') c of None \<Rightarrow> c | Some l \<Rightarrow> l)"

text \<open>The hex digits of the bytes \<open>bytes.fromhex\<close> reads, or \<open>None\<close> where it raises.\<close>

fun fromhex :: "string \<Rightarrow> string option" where
  "fromhex [] = Some []"
| "fromhex [c] = (if is_space c then Some [] else None)"
| "fromhex (c # c' # s) =
     (if is_space c then fromhex (c' # s)
      else if is_hex c \<and> is_hex c' then map_option (\<lambda>digits. c # c' # digits) (fromhex s)
      else None)"

definition ObjectId :: "string \<Rightarrow> exn + string" where
  "ObjectId s =
     (if length s = 24
      then (case fromhex s of
              None \<Rightarrow> Inl (InvalidId s)
            | Some digits \<Rightarrow> Inr (map hex_lower digits))
      else Inl (InvalidId s))"

text \<open>\<open>[ObjectId(ci.product_id) for ci in payload.cart]\<close>: the first bad id raises.\<close>

fun object_ids :: "CartItem list \<Rightarrow> exn + string list" where
  "object_ids [] = Inr []"
| "object_ids (ci # rest) =
     (case ObjectId (ci_product_id ci) of
        Inl e \<Rightarrow> Inl e
      | Inr oid \<Rightarrow> (case object_ids rest of Inl e \<Rightarrow> Inl e | Inr oids \<Rightarrow> Inr (oid # oids)))"

text \<open>\<open>db["product"].find({"_id": {"$in": ids}})\<close>\<close>

definition find_by_ids :: "db \<Rightarrow> string list \<Rightarrow> product_doc list" where
  "find_by_ids d ids = filter (\<lambda>doc. p_id doc \<in> set ids) (product_coll d)"

text \<open>\<open>{str(p["_id"]): p for p in products}\<close>: a later document replaces an earlier one.\<close>

definition product_map_of :: "product_doc list \<Rightarrow> (string \<rightharpoonup> product_doc)" where
  "product_map_of products = foldl (\<lambda>m doc. m(p_id doc \<mapsto> doc)) Map.empty products"

text \<open>\<open>float(prod.get("price", 0))\<close>\<close>

definition unit_price :: "product_doc \<Rightarrow> pyfloat" where
  "unit_price pdoc = (case p_price pdoc of None \<Rightarrow> Finite 0 | Some x \<Rightarrow> x)"

text \<open>
  The constructors of the pydantic models check the declared constraints and raise one
  ValidationError naming the fields that fail: for \<open>OrderItem\<close>, \<open>title\<close> must be a string,
  \<open>price >= 0\<close> and \<open>quantity >= 1\<close>; for \<open>Order\<close>, \<open>subtotal\<close>, \<open>shipping\<close> and
  \<open>total\<close> must be \<open>>= 0\<close>.
\<close>

definition new_OrderItem :: "string \<Rightarrow> string option \<Rightarrow> pyfloat \<Rightarrow> int \<Rightarrow> exn + OrderItem" where
  "new_OrderItem pid title_opt pr qty =
     (let errs = (if title_opt = None then [''title''] else [])
               @ (if fge pr (Finite 0) then [] else [''price''])
               @ (if 1 \<le> qty then [] else [''quantity''])
      in case title_opt of
           Some t \<Rightarrow> if errs = [] then
                       Inr \<lparr>oi_product_id = pid, oi_title = t, oi_price = pr, oi_quantity = qty\<rparr>
                     else Inl (ValidationError errs)
         | None \<Rightarrow> Inl (ValidationError errs))"

definition new_Order :: "CheckoutRequest \<Rightarrow> OrderItem list \<Rightarrow> pyfloat \<Rightarrow> pyfloat \<Rightarrow> pyfloat
    \<Rightarrow> string \<Rightarrow> exn + Order" where
  "new_Order payload its sub ship tot st =
     (let errs = (if fge sub (Finite 0) then [] else [''subtotal''])
               @ (if fge ship (Finite 0) then [] else [''shipping''])
               @ (if fge tot (Finite 0) then [] else [''total''])
      in if errs = [] then
           Inr \<lparr>customer_name = req_name payload, email = req_email payload,
                phone = req_phone payload, address_line = req_address_line payload,
                city = req_city payload, pincode = req_pincode payload,
                payment_method = req_payment_method payload, items = its,
                subtotal = sub, shipping = ship, total = tot, status = st\<rparr>
         else Inl (ValidationError errs))"

text \<open>
  The loop over the cart, with its two accumulators. An exception other than an
  HTTPException leaves \<open>checkout\<close> as a 500 carrying its text.
\<close>

fun cart_loop :: "(string \<rightharpoonup> product_doc) \<Rightarrow> CartItem list \<Rightarrow> OrderItem list \<Rightarrow> pyfloat
    \<Rightarrow> failure + (OrderItem list \<times> pyfloat)" where
  "cart_loop product_map [] its sub = Inr (its, sub)"
| "cart_loop product_map (ci # rest) its sub =
     (case product_map (ci_product_id ci) of
        None \<Rightarrow> Inl (HTTPException 404 (Msg (''Product '' @ ci_product_id ci @ '' not found'')))
      | Some pdoc \<Rightarrow>
          (case float_of_int (ci_quantity ci) of
             Inl e \<Rightarrow> Inl (HTTPException 500 (ExnText e))
           | Inr q \<Rightarrow>
               let line_total = fmul (unit_price pdoc) q;
                   sub' = fadd sub line_total
               in (case new_OrderItem (ci_product_id ci) (p_title pdoc) (unit_price pdoc)
                          (ci_quantity ci) of
                     Inl e \<Rightarrow> Inl (HTTPException 500 (ExnText e))
                   | Inr item \<Rightarrow> cart_loop product_map rest (its @ [item]) sub')))"

text \<open>
  \<open>checkout\<close>; \<open>new_id\<close> is the identifier the store assigns to the order if it is
  inserted. The result is the response or the HTTPException raised, and the database after
  the call.
\<close>

definition checkout :: "db \<Rightarrow> string \<Rightarrow> CheckoutRequest \<Rightarrow> (failure + checkout_result) \<times> db" where
  "checkout d new_id payload =
     (case object_ids (cart payload) of
        Inl e \<Rightarrow> (Inl (HTTPException 500 (ExnText e)), d)
      | Inr ids \<Rightarrow>
          let products = find_by_ids d ids;
              product_map = product_map_of products
          in (case cart_loop product_map (cart payload) [] (Finite 0) of
                Inl f \<Rightarrow> (Inl f, d)
              | Inr (its, sub) \<Rightarrow>
                  let ship = (if fge sub (Finite 10) then Finite 0 else Finite 1);
                      tot = fadd sub ship
                  in (case new_Order payload its (py_round2 sub) (py_round2 ship) (py_round2 tot)
                             (if req_payment_method payload = ''card'' then ''paid'' else ''pending'') of
                        Inl e \<Rightarrow> (Inl (HTTPException 500 (ExnText e)), d)
                      | Inr ord \<Rightarrow>
                          let (oid, d') = create_order_document d new_id ord;
                              payment_info =
                                (if req_payment_method payload = ''card''
                                 then Some \<lparr>provider = ''mock'', pay_status = ''succeeded'',
                                            transaction_id = oid\<rparr>
                                 else None)
                          in (Inr \<lparr>order_id = oid, res_total = total ord,
                                   res_status = status ord, payment = payment_info\<rparr>, d'))))"

section \<open>The specification's vocabulary\<close>

text \<open>\<open>x >= 0\<close>, the constraint \<open>ge=0\<close> of the schemas.\<close>

definition nonneg :: "pyfloat \<Rightarrow> bool" where
  "nonneg x = fge x (Finite 0)"

text \<open>
  The product the catalog holds under an identifier string (the latest one, should the
  collection hold several under one identifier).
\<close>

definition catalog_lookup :: "db \<Rightarrow> string \<rightharpoonup> product_doc" where
  "catalog_lookup d pid = find (\<lambda>doc. p_id doc = pid) (rev (product_coll d))"

text \<open>The identifier a well-formed string denotes, as its string.\<close>

definition oid_of :: "string \<Rightarrow> string" where
  "oid_of s = (case ObjectId s of Inl _ \<Rightarrow> [] | Inr oid \<Rightarrow> oid)"

text \<open>A cart identifier in the canonical form in which the store writes identifiers.\<close>

definition canonical_id :: "string \<Rightarrow> bool" where
  "canonical_id s = (ObjectId s = Inr s)"

text \<open>
  A cart line that references a product and meets the constraints of \<open>OrderItem\<close>: the
  product has a title, its price is \<open>>= 0\<close>, the quantity is \<open>>= 1\<close> and within the
  float range.
\<close>

definition line_ok :: "(string \<rightharpoonup> product_doc) \<Rightarrow> CartItem \<Rightarrow> bool" where
  "line_ok lk ci =
     (case lk (ci_product_id ci) of
        None \<Rightarrow> False
      | Some pdoc \<Rightarrow> p_title pdoc \<noteq> None \<and> nonneg (unit_price pdoc) \<and> 1 \<le> ci_quantity ci
                     \<and> \<not> isl (float_of_int (ci_quantity ci)))"

text \<open>
  \<open>item\<close> is the snapshot of the cart line \<open>ci\<close>: its product identifier and quantity,
  with the title and unit price of the product when looked up.
\<close>

definition is_snapshot :: "(string \<rightharpoonup> product_doc) \<Rightarrow> CartItem \<Rightarrow> OrderItem \<Rightarrow> bool" where
  "is_snapshot lk ci item =
     (case lk (ci_product_id ci) of
        None \<Rightarrow> False
      | Some pdoc \<Rightarrow> oi_product_id item = ci_product_id ci \<and> p_title pdoc = Some (oi_title item)
                     \<and> oi_price item = unit_price pdoc \<and> oi_quantity item = ci_quantity ci)"

text \<open>
  The sum over the cart of price times quantity, in floats, added line by line in cart
  order onto \<open>acc\<close>; undefined when a line has no product or a quantity beyond the floats.
\<close>

fun cart_sum :: "(string \<rightharpoonup> product_doc) \<Rightarrow> CartItem list \<Rightarrow> pyfloat \<Rightarrow> pyfloat option" where
  "cart_sum lk [] acc = Some acc"
| "cart_sum lk (ci # rest) acc =
     (case lk (ci_product_id ci) of
        None \<Rightarrow> None
      | Some pdoc \<Rightarrow>
          (case float_of_int (ci_quantity ci) of
             Inl _ \<Rightarrow> None
           | Inr q \<Rightarrow> cart_sum lk rest (fadd acc (fmul (unit_price pdoc) q))))"

text \<open>A product that carries one of the two seed SKUs.\<close>

definition has_seed_sku :: "product_doc \<Rightarrow> bool" where
  "has_seed_sku doc = (p_sku doc = Some ''JAG-500'' \<or> p_sku doc = Some ''JAG-1000'')"

text \<open>The flat-rate threshold rule.\<close>

definition shipping_rule :: "pyfloat \<Rightarrow> pyfloat" where
  "shipping_rule sub = (if fge sub (Finite 10) then Finite 0 else Finite 1)"

section \<open>Sample data\<close>

definition demo_db :: db where
  "demo_db =
     \<lparr>product_coll = [seed_p1 ''65f0a1b2c3d4e5f601234567'', seed_p2 ''65f0a1b2c3d4e5f601234568''],
      order_coll = []\<rparr>"

definition demo_req :: "string \<Rightarrow> CartItem list \<Rightarrow> CheckoutRequest" where
  "demo_req pm c =
     \<lparr>req_name = ''Asha'', req_email = ''asha@example.com'', req_phone = ''5550100'',
      req_address_line = ''1 Mill Road'', req_city = ''Pune'', req_pincode = ''411001'',
      req_payment_method = pm, cart = c\<rparr>"

definition demo_order :: "string \<Rightarrow> OrderItem list \<Rightarrow> pyfloat \<Rightarrow> pyfloat \<Rightarrow> pyfloat \<Rightarrow> string
    \<Rightarrow> Order" where
  "demo_order pm its sub ship tot st =
     \<lparr>customer_name = ''Asha'', email = ''asha@example.com'', phone = ''5550100'',
      address_line = ''1 Mill Road'', city = ''Pune'', pincode = ''411001'',
      payment_method = pm, items = its, subtotal = sub, shipping = ship, total = tot,
      status = st\<rparr>"

definition id_500 :: string where "id_500 = ''65f0a1b2c3d4e5f601234567''"

definition id_1000 :: string where "id_1000 = ''65f0a1b2c3d4e5f601234568''"

definition id_order :: string where "id_order = ''65f0a1b2c3d4e5f6012345aa''"

definition id_cube :: string where "id_cube = ''65f0a1b2c3d4e5f601234569''"

definition id_absent :: string where "id_absent = ''ffffffffffffffffffffffff''"

definition line :: "string \<Rightarrow> int \<Rightarrow> CartItem" where
  "line pid qty = \<lparr>ci_product_id = pid, ci_quantity = qty\<rparr>"

definition empty_db :: db where
  "empty_db = \<lparr>product_coll = [], order_coll = []\<rparr>"

definition penny_db :: db where
  "penny_db =
     \<lparr>product_coll =
        [\<lparr>p_id = id_cube, p_title = Some ''Jaggery Cube'',
          p_description = None, p_price = Some (rnd (14 / 100)), p_category = ''jaggery'',
          p_in_stock = True, p_image = None, p_sku = Some ''JAG-CUBE'', p_weight_g = Some 10\<rparr>],
      order_coll = []\<rparr>"

section \<open>The order and the response of a successful checkout\<close>

definition order_of :: "CheckoutRequest \<Rightarrow> OrderItem list \<Rightarrow> pyfloat \<Rightarrow> Order" where
  "order_of payload its sub =
     \<lparr>customer_name = req_name payload, email = req_email payload,
      phone = req_phone payload, address_line = req_address_line payload,
      city = req_city payload, pincode = req_pincode payload,
      payment_method = req_payment_method payload, items = its,
      subtotal = py_round2 sub, shipping = py_round2 (shipping_rule sub),
      total = py_round2 (fadd sub (shipping_rule sub)),
      status = (if req_payment_method payload = ''card'' then ''paid'' else ''pending'')\<rparr>"

definition response_of :: "CheckoutRequest \<Rightarrow> string \<Rightarrow> Order \<Rightarrow> checkout_result" where
  "response_of payload oid ord =
     \<lparr>order_id = oid, res_total = total ord, res_status = status ord,
      payment = (if req_payment_method payload = ''card''
                 then Some \<lparr>provider = ''mock'', pay_status = ''succeeded'', transaction_id = oid\<rparr>
                 else None)\<rparr>"

section \<open>Lemmas\<close>

subsection \<open>Properties of the float model\<close>

lemma bitlen_powi_bounds:
  assumes "0 < a"
  shows "(2::rat) powi (bitlen a - 1) \<le> of_int a" and "of_int a < (2::rat) powi (bitlen a)"
proof -
  have b: "2 ^ nat (bitlen a - 1) \<le> a" "a < 2 ^ nat (bitlen a)"
    using bitlen_bounds [OF assms] by auto
  have ge1: "1 \<le> bitlen a"
    using assms bitlen_eq_zero_iff [of a] bitlen_nonneg [of a] by linarith
  have "(of_int (2 ^ nat (bitlen a - 1)) :: rat) \<le> of_int a"
    using b(1) of_int_le_iff by blast
  then show "(2::rat) powi (bitlen a - 1) \<le> of_int a"
    using ge1 by (simp add: power_int_def)
  have "(of_int a :: rat) < of_int (2 ^ nat (bitlen a))"
    using b(2) of_int_less_iff by blast
  then show "of_int a < (2::rat) powi (bitlen a)"
    using ge1 by (simp add: power_int_def)
qed

lemma ilog2_bounds:
  assumes "0 < q"
  shows "2 powi (ilog2 q) \<le> q \<and> q < 2 powi (ilog2 q + 1)"
proof -
  obtain a b where ab: "quotient_of q = (a, b)"
    by (cases "quotient_of q")
  have bpos: "0 < b" using ab by (rule quotient_of_denom_pos)
  have q: "q = of_int a / of_int b" using ab by (rule quotient_of_div)
  have apos: "0 < a"
    using assms bpos unfolding q by (simp add: zero_less_divide_iff)
  let ?k = "bitlen a - bitlen b"
  have bposr: "(0::rat) < of_int b" using bpos by simp
  have up: "q < 2 powi (?k + 1)"
  proof -
    have "of_int a * (2::rat) powi (bitlen b - 1) < 2 powi (bitlen a) * of_int b"
      using bitlen_powi_bounds [OF apos] bitlen_powi_bounds [OF bpos] apos bpos
      by (intro mult_less_le_imp_less) auto
    then have "of_int a / of_int b < (2::rat) powi (bitlen a) / 2 powi (bitlen b - 1)"
      using bposr by (simp add: field_simps)
    also have "\<dots> = 2 powi (?k + 1)"
      by (simp add: power_int_diff [symmetric] algebra_simps)
    finally show ?thesis unfolding q .
  qed
  have lo: "2 powi (?k - 1) \<le> q"
  proof -
    have "(2::rat) powi (bitlen a - 1) * of_int b \<le> of_int a * 2 powi (bitlen b)"
      using bitlen_powi_bounds [OF apos] bitlen_powi_bounds [OF bpos] apos bpos
      by (intro mult_mono) auto
    then have "(2::rat) powi (bitlen a - 1) / 2 powi (bitlen b) \<le> of_int a / of_int b"
      using bposr by (simp add: field_simps)
    moreover have "(2::rat) powi (bitlen a - 1) / 2 powi (bitlen b) = 2 powi (?k - 1)"
      by (simp add: power_int_diff [symmetric] algebra_simps)
    ultimately show ?thesis unfolding q by simp
  qed
  show ?thesis
  proof (cases "2 powi ?k \<le> q")
    case True
    then show ?thesis using up ab by (simp add: ilog2_def)
  next
    case False
    then show ?thesis using lo ab by (simp add: ilog2_def)
  qed
qed

lemma round_half_even_nonneg: "0 \<le> q \<Longrightarrow> 0 \<le> round_half_even q"
  by (auto simp: round_half_even_def Let_def)

lemma round_half_even_pos: "1 \<le> q \<Longrightarrow> 0 < round_half_even q"
proof -
  assume "1 \<le> q"
  then have "1 \<le> \<lfloor>q\<rfloor>" by (simp add: le_floor_iff)
  then show ?thesis by (auto simp: round_half_even_def Let_def)
qed

lemma powi2_pos: "(0::rat) < 2 powi e"
  by (simp add: power_int_def)

lemma nonneg_cases: "nonneg x \<longleftrightarrow> x = PInf \<or> (\<exists>v. x = Finite v \<and> 0 \<le> v)"
  by (cases x) (auto simp: nonneg_def)

lemma rnd_nonneg: "0 \<le> q \<Longrightarrow> nonneg (rnd q)"
proof -
  assume q: "0 \<le> q"
  have "0 \<le> round_half_even (q / 2 powi e)" for e
    using q powi2_pos [of e] by (intro round_half_even_nonneg) simp
  then have "0 \<le> rat_of_int (round_half_even (q / 2 powi e)) * 2 powi e" for e
    using powi2_pos [of e] by (simp add: less_imp_le)
  then show ?thesis
    using q by (auto simp: rnd_def Let_def nonneg_cases)
qed

lemma rnd_pos:
  assumes "1 \<le> q"
  shows "rnd q = PInf \<or> (\<exists>v. rnd q = Finite v \<and> 0 < v)"
proof -
  have qpos: "0 < q" using assms by simp
  define e where "e = max (ilog2 \<bar>q\<bar> - 52) (- 1074)"
  have up: "1 < (2::rat) powi (ilog2 q + 1)"
    using assms ilog2_bounds [OF qpos] by simp
  have "0 < ilog2 q + 1"
  proof (rule ccontr)
    assume "\<not> 0 < ilog2 q + 1"
    then have "(2::rat) powi (ilog2 q + 1) \<le> 2 powi 0"
      by (intro power_int_increasing) auto
    then show False using up by simp
  qed
  then have e: "e = ilog2 q - 52" using qpos by (simp add: e_def)
  have "(2::rat) powi e \<le> 2 powi (ilog2 q)"
    unfolding e by (intro power_int_increasing) auto
  also have "\<dots> \<le> q" using ilog2_bounds [OF qpos] by simp
  finally have "1 \<le> q / 2 powi e"
    using powi2_pos [of e] by (simp add: field_simps)
  then have "0 < round_half_even (q / 2 powi e)" by (rule round_half_even_pos)
  then have "0 < rat_of_int (round_half_even (q / 2 powi e)) * 2 powi e"
    using powi2_pos [of e] by simp
  then show ?thesis
    using qpos unfolding rnd_def e_def [symmetric] Let_def by auto
qed

lemma float_of_int_pos:
  assumes "1 \<le> n" "float_of_int n = Inr f"
  shows "\<exists>v. f = Finite v \<and> 0 < v"
proof -
  have "1 \<le> rat_of_int n" using assms(1) by simp
  from rnd_pos [OF this] assms(2) show ?thesis
    by (auto simp: float_of_int_def)
qed

lemma fadd_nonneg:
  assumes "nonneg x" "nonneg y"
  shows "nonneg (fadd x y)"
proof (cases x)
  case (Finite a)
  show ?thesis
  proof (cases y)
    case (Finite b)
    have "0 \<le> a + b" using assms \<open>x = Finite a\<close> Finite by (simp add: nonneg_def)
    then show ?thesis using \<open>x = Finite a\<close> Finite by (simp add: rnd_nonneg)
  qed (use assms Finite in \<open>simp_all add: nonneg_def\<close>)
next
  case PInf
  then show ?thesis using assms by (cases y) (simp_all add: nonneg_def)
qed (use assms in \<open>simp_all add: nonneg_def\<close>)

lemma fmul_nonneg_pos:
  assumes "nonneg x" "0 < v"
  shows "nonneg (fmul x (Finite v))"
proof (cases x)
  case (Finite a)
  have "0 \<le> a * v" using assms Finite by (simp add: nonneg_def)
  then show ?thesis using Finite by (simp add: rnd_nonneg)
next
  case PInf
  then show ?thesis using assms by (simp add: nonneg_def inf_of_sign_def)
qed (use assms in \<open>simp_all add: nonneg_def\<close>)

lemma py_round2_nonneg: "nonneg x \<Longrightarrow> nonneg (py_round2 x)"
proof -
  assume "nonneg x"
  then consider "x = PInf" | v where "x = Finite v" "0 \<le> v"
    by (auto simp: nonneg_cases)
  then show ?thesis
  proof cases
    case 1
    then show ?thesis by (simp add: nonneg_def)
  next
    case 2
    have "0 \<le> round_half_even (v * 100)"
      using 2 by (intro round_half_even_nonneg) simp
    then show ?thesis using 2 by (simp add: rnd_nonneg)
  qed
qed

lemma rnd_0 [simp]: "rnd 0 = Finite 0"
  by (simp add: rnd_def)

lemma rnd_1: "rnd 1 = Finite 1"
  by code_simp

lemma py_round2_0: "py_round2 (Finite 0) = Finite 0"
  by code_simp

lemma py_round2_1: "py_round2 (Finite 1) = Finite 1"
  by code_simp

subsection \<open>Identifiers and the product map\<close>

lemma ObjectId_cases:
  "ObjectId s = Inr (oid_of s) \<or> ObjectId s = Inl (InvalidId s)"
  by (simp add: ObjectId_def oid_of_def split: option.splits)

lemma object_ids_good:
  "\<forall>ci \<in> set c. \<not> isl (ObjectId (ci_product_id ci)) \<Longrightarrow>
   object_ids c = Inr (map (\<lambda>ci. oid_of (ci_product_id ci)) c)"
proof (induction c)
  case Nil
  then show ?case by simp
next
  case (Cons ci rest)
  then have "ObjectId (ci_product_id ci) = Inr (oid_of (ci_product_id ci))"
    using ObjectId_cases [of "ci_product_id ci"] by auto
  with Cons show ?case by simp
qed

lemma object_ids_bad:
  "\<exists>ci \<in> set c. isl (ObjectId (ci_product_id ci)) \<Longrightarrow>
   \<exists>ci \<in> set c. isl (ObjectId (ci_product_id ci)) \<and>
      object_ids c = Inl (InvalidId (ci_product_id ci))"
proof (induction c)
  case Nil
  then show ?case by simp
next
  case (Cons ci rest)
  show ?case
  proof (cases "isl (ObjectId (ci_product_id ci))")
    case True
    then have "ObjectId (ci_product_id ci) = Inl (InvalidId (ci_product_id ci))"
      using ObjectId_cases [of "ci_product_id ci"] by auto
    with True show ?thesis by simp
  next
    case False
    then have ok: "ObjectId (ci_product_id ci) = Inr (oid_of (ci_product_id ci))"
      using ObjectId_cases [of "ci_product_id ci"] by auto
    from False Cons.prems have "\<exists>c \<in> set rest. isl (ObjectId (ci_product_id c))" by auto
    then obtain c where "c \<in> set rest" "isl (ObjectId (ci_product_id c))"
      "object_ids rest = Inl (InvalidId (ci_product_id c))"
      using Cons.IH by blast
    with ok show ?thesis by auto
  qed
qed

lemma object_ids_Inr:
  assumes "object_ids c = Inr ids"
  shows "ids = map (\<lambda>ci. oid_of (ci_product_id ci)) c"
proof -
  have "\<forall>ci \<in> set c. \<not> isl (ObjectId (ci_product_id ci))"
  proof (rule ccontr)
    assume "\<not> ?thesis"
    then have "\<exists>ci \<in> set c. isl (ObjectId (ci_product_id ci))" by simp
    from object_ids_bad [OF this] assms show False by auto
  qed
  from object_ids_good [OF this] assms show ?thesis by simp
qed

lemma canonical_id_mem:
  assumes "ci \<in> set c" "canonical_id (ci_product_id ci)"
  shows "ci_product_id ci \<in> set (map (\<lambda>ci. oid_of (ci_product_id ci)) c)"
proof -
  have "oid_of (ci_product_id ci) = ci_product_id ci"
    using assms(2) by (simp add: canonical_id_def oid_of_def)
  then show ?thesis using assms(1) by force
qed

lemma foldl_product_map:
  "foldl (\<lambda>m doc. m(p_id doc \<mapsto> doc)) m0 docs k =
     (case find (\<lambda>doc. p_id doc = k) (rev docs) of None \<Rightarrow> m0 k | Some doc \<Rightarrow> Some doc)"
  by (induction docs rule: rev_induct) auto

lemma find_filter_None: "\<forall>x. P x \<longrightarrow> \<not> Q x \<Longrightarrow> find P (filter Q xs) = None"
  by (induction xs) auto

lemma find_filter_same: "\<forall>x. P x \<longrightarrow> Q x \<Longrightarrow> find P (filter Q xs) = find P xs"
  by (induction xs) auto

lemma product_map_of_find:
  "product_map_of (find_by_ids d ids) pid = (if pid \<in> set ids then catalog_lookup d pid else None)"
proof (cases "pid \<in> set ids")
  case True
  then have "find (\<lambda>doc. p_id doc = pid) (filter (\<lambda>doc. p_id doc \<in> set ids) (rev (product_coll d)))
             = find (\<lambda>doc. p_id doc = pid) (rev (product_coll d))"
    by (intro find_filter_same) auto
  with True show ?thesis
    by (simp add: product_map_of_def find_by_ids_def foldl_product_map catalog_lookup_def rev_filter
        split: option.splits)
next
  case False
  then have "find (\<lambda>doc. p_id doc = pid) (filter (\<lambda>doc. p_id doc \<in> set ids) (rev (product_coll d)))
             = None"
    by (intro find_filter_None) auto
  with False show ?thesis
    by (simp add: product_map_of_def find_by_ids_def foldl_product_map rev_filter)
qed

subsection \<open>The loop over the cart\<close>

lemma line_okE:
  assumes "line_ok lk ci"
  obtains pdoc t q where
    "lk (ci_product_id ci) = Some pdoc" "p_title pdoc = Some t" "nonneg (unit_price pdoc)"
    "1 \<le> ci_quantity ci" "float_of_int (ci_quantity ci) = Inr q"
proof (cases "lk (ci_product_id ci)")
  case None
  with assms show ?thesis by (simp add: line_ok_def)
next
  case (Some pdoc)
  with assms have a: "p_title pdoc \<noteq> None" "nonneg (unit_price pdoc)" "1 \<le> ci_quantity ci"
    "\<not> isl (float_of_int (ci_quantity ci))"
    by (simp_all add: line_ok_def)
  from a(1) obtain t where t: "p_title pdoc = Some t" by blast
  from a(4) obtain q where q: "float_of_int (ci_quantity ci) = Inr q"
    by (cases "float_of_int (ci_quantity ci)") simp_all
  from that [OF Some t a(2,3) q] show ?thesis .
qed

lemma new_OrderItem_ok:
  assumes "t = Some tt" "nonneg pr" "1 \<le> qty"
  shows "new_OrderItem pid t pr qty =
         Inr \<lparr>oi_product_id = pid, oi_title = tt, oi_price = pr, oi_quantity = qty\<rparr>"
  using assms by (simp add: new_OrderItem_def nonneg_def)

lemma cart_loop_step:
  assumes "pm (ci_product_id ci) = Some pdoc" "float_of_int (ci_quantity ci) = Inr q"
    "new_OrderItem (ci_product_id ci) (p_title pdoc) (unit_price pdoc) (ci_quantity ci) = Inr item"
  shows "cart_loop pm (ci # rest) its sub =
         cart_loop pm rest (its @ [item]) (fadd sub (fmul (unit_price pdoc) q))"
  using assms by (simp add: Let_def)

lemma cart_loop_step_ok:
  assumes "pm (ci_product_id ci) = Some pdoc" "float_of_int (ci_quantity ci) = Inr q"
    "p_title pdoc = Some t" "nonneg (unit_price pdoc)" "1 \<le> ci_quantity ci"
  shows "cart_loop pm (ci # rest) its sub =
         cart_loop pm rest
           (its @ [\<lparr>oi_product_id = ci_product_id ci, oi_title = t, oi_price = unit_price pdoc,
                     oi_quantity = ci_quantity ci\<rparr>])
           (fadd sub (fmul (unit_price pdoc) q))"
  using assms by (simp add: Let_def new_OrderItem_def nonneg_def)

lemma cart_loop_Cons_Inr:
  assumes "cart_loop pm (ci # rest) its sub = Inr r"
  obtains pdoc q item where
    "pm (ci_product_id ci) = Some pdoc" "float_of_int (ci_quantity ci) = Inr q"
    "new_OrderItem (ci_product_id ci) (p_title pdoc) (unit_price pdoc) (ci_quantity ci) = Inr item"
    "cart_loop pm rest (its @ [item]) (fadd sub (fmul (unit_price pdoc) q)) = Inr r"
proof (cases "pm (ci_product_id ci)")
  case None
  with assms show ?thesis by simp
next
  case (Some pdoc)
  show ?thesis
  proof (cases "float_of_int (ci_quantity ci)")
    case (Inl e)
    with assms Some show ?thesis by simp
  next
    case (Inr q)
    show ?thesis
    proof (cases "new_OrderItem (ci_product_id ci) (p_title pdoc) (unit_price pdoc) (ci_quantity ci)")
      case (Inl e)
      with assms Some \<open>float_of_int (ci_quantity ci) = Inr q\<close> show ?thesis
        by (simp add: Let_def)
    next
      case (Inr item)
      note item = this
      have "cart_loop pm rest (its @ [item]) (fadd sub (fmul (unit_price pdoc) q)) = Inr r"
        using assms Some \<open>float_of_int (ci_quantity ci) = Inr q\<close> item by (simp add: Let_def)
      with that Some \<open>float_of_int (ci_quantity ci) = Inr q\<close> item show ?thesis by blast
    qed
  qed
qed

lemma cart_loop_Inr:
  "cart_loop pm c its sub = Inr (its', sub') \<Longrightarrow>
     list_all (line_ok pm) c \<and> cart_sum pm c sub = Some sub' \<and>
     (\<exists>new. its' = its @ new \<and> list_all2 (is_snapshot pm) c new)"
proof (induction c arbitrary: its sub)
  case Nil
  then show ?case by simp
next
  case (Cons ci rest)
  from Cons.prems obtain pdoc q item where
    pm: "pm (ci_product_id ci) = Some pdoc" and
    q: "float_of_int (ci_quantity ci) = Inr q" and
    item: "new_OrderItem (ci_product_id ci) (p_title pdoc) (unit_price pdoc) (ci_quantity ci) = Inr item" and
    rest: "cart_loop pm rest (its @ [item]) (fadd sub (fmul (unit_price pdoc) q)) = Inr (its', sub')"
    by (rule cart_loop_Cons_Inr)
  from Cons.IH [OF rest] obtain new where
    ih: "list_all (line_ok pm) rest" "cart_sum pm rest (fadd sub (fmul (unit_price pdoc) q)) = Some sub'"
        "its' = (its @ [item]) @ new" "list_all2 (is_snapshot pm) rest new"
    by blast
  from item have it:
    "p_title pdoc = Some (oi_title item)" "nonneg (unit_price pdoc)" "1 \<le> ci_quantity ci"
    "oi_product_id item = ci_product_id ci" "oi_price item = unit_price pdoc"
    "oi_quantity item = ci_quantity ci"
    by (auto simp: new_OrderItem_def nonneg_def split: option.splits if_splits)
  have ok: "line_ok pm ci"
    using pm q it(1-3) by (simp add: line_ok_def)
  have snap: "is_snapshot pm ci item"
    using pm it by (simp add: is_snapshot_def)
  have a: "its' = its @ (item # new)" using ih(3) by simp
  have b: "list_all2 (is_snapshot pm) (ci # rest) (item # new)"
    using snap ih(4) by simp
  have c: "cart_sum pm (ci # rest) sub = Some sub'"
    using pm q ih(2) by simp
  have d: "list_all (line_ok pm) (ci # rest)"
    using ok ih(1) by simp
  from a b have "\<exists>new. its' = its @ new \<and> list_all2 (is_snapshot pm) (ci # rest) new"
    by blast
  with c d show ?case by blast
qed

lemma cart_loop_ok:
  "list_all (line_ok pm) c \<Longrightarrow> \<exists>its' sub'. cart_loop pm c its sub = Inr (its', sub')"
proof (induction c arbitrary: its sub)
  case Nil
  then show ?case by simp
next
  case (Cons ci rest)
  from Cons.prems have ci: "line_ok pm ci" and rest: "list_all (line_ok pm) rest"
    by simp_all
  from ci obtain pdoc t q where
    pm: "pm (ci_product_id ci) = Some pdoc" and t: "p_title pdoc = Some t" and
    nn: "nonneg (unit_price pdoc)" and qty: "1 \<le> ci_quantity ci" and
    q: "float_of_int (ci_quantity ci) = Inr q"
    by (rule line_okE)
  have "cart_loop pm (ci # rest) its sub =
        cart_loop pm rest
           (its @ [\<lparr>oi_product_id = ci_product_id ci, oi_title = t, oi_price = unit_price pdoc,
                     oi_quantity = ci_quantity ci\<rparr>])
           (fadd sub (fmul (unit_price pdoc) q))"
    using pm q t nn qty by (rule cart_loop_step_ok)
  then show ?case using Cons.IH [OF rest] by simp
qed

lemma cart_loop_failure:
  "cart_loop pm c its sub = Inl f \<Longrightarrow>
     (\<exists>ci \<in> set c. pm (ci_product_id ci) = None \<and>
        f = HTTPException 404 (Msg (''Product '' @ ci_product_id ci @ '' not found'')))
     \<or> (\<exists>e. f = HTTPException 500 (ExnText e))"
proof (induction c arbitrary: its sub)
  case Nil
  then show ?case by simp
next
  case (Cons ci rest)
  show ?case
  proof (cases "pm (ci_product_id ci)")
    case None
    with Cons.prems show ?thesis by auto
  next
    case (Some pdoc)
    show ?thesis
    proof (cases "float_of_int (ci_quantity ci)")
      case (Inl e)
      with Cons.prems Some show ?thesis by auto
    next
      case (Inr q)
      note q = this
      show ?thesis
      proof (cases "new_OrderItem (ci_product_id ci) (p_title pdoc) (unit_price pdoc) (ci_quantity ci)")
        case (Inl e)
        with Cons.prems Some q show ?thesis by (auto simp: Let_def)
      next
        case (Inr item)
        have "cart_loop pm rest (its @ [item]) (fadd sub (fmul (unit_price pdoc) q)) = Inl f"
          using Cons.prems Some q Inr by (simp add: Let_def)
        from Cons.IH [OF this] show ?thesis by auto
      qed
    qed
  qed
qed


lemma cart_sum_nonneg:
  "list_all (line_ok lk) c \<Longrightarrow> nonneg acc \<Longrightarrow> cart_sum lk c acc = Some s \<Longrightarrow> nonneg s"
proof (induction c arbitrary: acc)
  case Nil
  then show ?case by simp
next
  case (Cons ci rest)
  from Cons.prems(1) have ci: "line_ok lk ci" and rest: "list_all (line_ok lk) rest"
    by simp_all
  from ci obtain pdoc t q where
    lk: "lk (ci_product_id ci) = Some pdoc" and nn: "nonneg (unit_price pdoc)" and
    qty: "1 \<le> ci_quantity ci" and q: "float_of_int (ci_quantity ci) = Inr q"
    by (rule line_okE)
  from float_of_int_pos [OF qty q] obtain v where v: "q = Finite v" "0 < v" by blast
  have "nonneg (fadd acc (fmul (unit_price pdoc) q))"
    using Cons.prems(2) nn v by (simp add: fadd_nonneg fmul_nonneg_pos)
  moreover have "cart_sum lk rest (fadd acc (fmul (unit_price pdoc) q)) = Some s"
    using Cons.prems(3) lk q by simp
  ultimately show ?case using Cons.IH [OF rest] by blast
qed

text \<open>The three specification functions look at the lookup only at the identifiers of the cart.\<close>

lemma line_ok_cong: "pm (ci_product_id ci) = lk (ci_product_id ci) \<Longrightarrow> line_ok pm ci = line_ok lk ci"
  by (simp add: line_ok_def)

lemma is_snapshot_cong:
  "pm (ci_product_id ci) = lk (ci_product_id ci) \<Longrightarrow> is_snapshot pm ci item = is_snapshot lk ci item"
  by (simp add: is_snapshot_def)

lemma cart_sum_cong:
  "\<forall>ci \<in> set c. pm (ci_product_id ci) = lk (ci_product_id ci) \<Longrightarrow> cart_sum pm c acc = cart_sum lk c acc"
proof (induction c arbitrary: acc)
  case Nil
  show ?case by simp
next
  case (Cons ci rest)
  have eq: "pm (ci_product_id ci) = lk (ci_product_id ci)"
    using Cons.prems by simp
  have ih: "cart_sum pm rest a = cart_sum lk rest a" for a
    using Cons.prems by (intro Cons.IH) simp
  show ?case
    by (simp only: cart_sum.simps eq ih)
qed

lemma list_all2_snapshot_cong:
  "\<forall>ci \<in> set c. pm (ci_product_id ci) = lk (ci_product_id ci) \<Longrightarrow>
   list_all2 (is_snapshot pm) c its = list_all2 (is_snapshot lk) c its"
proof (induction c arbitrary: its)
  case Nil
  show ?case by simp
next
  case (Cons ci rest)
  have eq: "is_snapshot pm ci = is_snapshot lk ci"
    using Cons.prems by (intro ext is_snapshot_cong) simp
  have ih: "list_all2 (is_snapshot pm) rest xs = list_all2 (is_snapshot lk) rest xs" for xs
    using Cons.prems by (intro Cons.IH) simp
  show ?case
    by (cases its) (simp_all add: eq ih)
qed

lemma list_all_line_ok_cong:
  "\<forall>ci \<in> set c. pm (ci_product_id ci) = lk (ci_product_id ci) \<Longrightarrow>
   list_all (line_ok pm) c = list_all (line_ok lk) c"
proof (induction c)
  case Nil
  show ?case by simp
next
  case (Cons ci rest)
  have eq: "line_ok pm ci = line_ok lk ci"
    using Cons.prems by (intro line_ok_cong) simp
  have ih: "list_all (line_ok pm) rest = list_all (line_ok lk) rest"
    using Cons.prems by (intro Cons.IH) simp
  show ?case by (simp add: eq ih)
qed

subsection \<open>The shape of a checkout\<close>

lemma new_Order_cases:
  "new_Order payload its (py_round2 sub) (py_round2 (shipping_rule sub))
      (py_round2 (fadd sub (shipping_rule sub)))
      (if req_payment_method payload = ''card'' then ''paid'' else ''pending'')
    = Inr (order_of payload its sub)
   \<or> (\<exists>e. new_Order payload its (py_round2 sub) (py_round2 (shipping_rule sub))
      (py_round2 (fadd sub (shipping_rule sub)))
      (if req_payment_method payload = ''card'' then ''paid'' else ''pending'') = Inl e)"
  by (simp add: new_Order_def order_of_def Let_def)

lemma new_Order_ok:
  assumes "nonneg (py_round2 sub)" "nonneg (py_round2 (shipping_rule sub))"
    "nonneg (py_round2 (fadd sub (shipping_rule sub)))"
  shows "new_Order payload its (py_round2 sub) (py_round2 (shipping_rule sub))
      (py_round2 (fadd sub (shipping_rule sub)))
      (if req_payment_method payload = ''card'' then ''paid'' else ''pending'')
    = Inr (order_of payload its sub)"
  using assms by (simp add: new_Order_def order_of_def nonneg_def)

lemma checkout_bad_ids:
  "object_ids (cart payload) = Inl e \<Longrightarrow>
   checkout d new_id payload = (Inl (HTTPException 500 (ExnText e)), d)"
  by (simp add: checkout_def)

lemma checkout_loop_failed:
  "object_ids (cart payload) = Inr ids \<Longrightarrow>
   cart_loop (product_map_of (find_by_ids d ids)) (cart payload) [] (Finite 0) = Inl f \<Longrightarrow>
   checkout d new_id payload = (Inl f, d)"
  by (simp add: checkout_def Let_def)

lemma checkout_order_rejected:
  "object_ids (cart payload) = Inr ids \<Longrightarrow>
   cart_loop (product_map_of (find_by_ids d ids)) (cart payload) [] (Finite 0) = Inr (its, sub) \<Longrightarrow>
   new_Order payload its (py_round2 sub) (py_round2 (shipping_rule sub))
      (py_round2 (fadd sub (shipping_rule sub)))
      (if req_payment_method payload = ''card'' then ''paid'' else ''pending'') = Inl e \<Longrightarrow>
   checkout d new_id payload = (Inl (HTTPException 500 (ExnText e)), d)"
  by (simp add: checkout_def Let_def shipping_rule_def)

lemma checkout_order_stored:
  "object_ids (cart payload) = Inr ids \<Longrightarrow>
   cart_loop (product_map_of (find_by_ids d ids)) (cart payload) [] (Finite 0) = Inr (its, sub) \<Longrightarrow>
   new_Order payload its (py_round2 sub) (py_round2 (shipping_rule sub))
      (py_round2 (fadd sub (shipping_rule sub)))
      (if req_payment_method payload = ''card'' then ''paid'' else ''pending'')
     = Inr (order_of payload its sub) \<Longrightarrow>
   checkout d new_id payload =
     (Inr (response_of payload new_id (order_of payload its sub)),
      d\<lparr>order_coll := order_coll d @ [(new_id, order_of payload its sub)]\<rparr>)"
  by (simp add: checkout_def Let_def shipping_rule_def create_order_document_def response_of_def)

text \<open>Every run of checkout ends in one of four ways.\<close>

lemma checkout_cases:
  obtains
    (bad_ids) e where "object_ids (cart payload) = Inl e"
      "checkout d new_id payload = (Inl (HTTPException 500 (ExnText e)), d)"
  | (loop_failed) ids f where "object_ids (cart payload) = Inr ids"
      "cart_loop (product_map_of (find_by_ids d ids)) (cart payload) [] (Finite 0) = Inl f"
      "checkout d new_id payload = (Inl f, d)"
  | (order_rejected) ids its sub e where "object_ids (cart payload) = Inr ids"
      "cart_loop (product_map_of (find_by_ids d ids)) (cart payload) [] (Finite 0) = Inr (its, sub)"
      "checkout d new_id payload = (Inl (HTTPException 500 (ExnText e)), d)"
  | (stored) ids its sub where "object_ids (cart payload) = Inr ids"
      "cart_loop (product_map_of (find_by_ids d ids)) (cart payload) [] (Finite 0) = Inr (its, sub)"
      "checkout d new_id payload =
         (Inr (response_of payload new_id (order_of payload its sub)),
          d\<lparr>order_coll := order_coll d @ [(new_id, order_of payload its sub)]\<rparr>)"
proof (cases "object_ids (cart payload)")
  case (Inl e)
  then show ?thesis using bad_ids checkout_bad_ids by blast
next
  case (Inr ids)
  note ids = this
  show ?thesis
  proof (cases "cart_loop (product_map_of (find_by_ids d ids)) (cart payload) [] (Finite 0)")
    case (Inl f)
    then show ?thesis using loop_failed ids checkout_loop_failed by blast
  next
    case (Inr r)
    obtain its sub where r: "r = (its, sub)" by (cases r)
    note loop = Inr [unfolded r]
    from new_Order_cases [of payload its sub] show ?thesis
    proof
      assume "new_Order payload its (py_round2 sub) (py_round2 (shipping_rule sub))
        (py_round2 (fadd sub (shipping_rule sub)))
        (if req_payment_method payload = ''card'' then ''paid'' else ''pending'')
        = Inr (order_of payload its sub)"
      from checkout_order_stored [OF ids loop this] show ?thesis
        using stored ids loop by blast
    next
      assume "\<exists>e. new_Order payload its (py_round2 sub) (py_round2 (shipping_rule sub))
        (py_round2 (fadd sub (shipping_rule sub)))
        (if req_payment_method payload = ''card'' then ''paid'' else ''pending'') = Inl e"
      then obtain e where "new_Order payload its (py_round2 sub) (py_round2 (shipping_rule sub))
        (py_round2 (fadd sub (shipping_rule sub)))
        (if req_payment_method payload = ''card'' then ''paid'' else ''pending'') = Inl e" ..
      from checkout_order_rejected [OF ids loop this] show ?thesis
        using order_rejected ids loop by blast
    qed
  qed
qed

lemma checkout_success:
  assumes "checkout d new_id payload = (Inr res, d')"
  obtains ids its sub where "object_ids (cart payload) = Inr ids"
      "cart_loop (product_map_of (find_by_ids d ids)) (cart payload) [] (Finite 0) = Inr (its, sub)"
      "res = response_of payload new_id (order_of payload its sub)"
      "d' = d\<lparr>order_coll := order_coll d @ [(new_id, order_of payload its sub)]\<rparr>"
  using assms by (cases rule: checkout_cases [of payload d new_id]) auto

text \<open>
  On the identifiers of the cart the product map is the catalog, provided the loop
  found each of them in the map.
\<close>

lemma resolved_in_catalog:
  assumes "list_all (line_ok (product_map_of (find_by_ids d ids))) c"
  shows "\<forall>ci \<in> set c. product_map_of (find_by_ids d ids) (ci_product_id ci)
           = catalog_lookup d (ci_product_id ci)"
proof
  fix ci assume "ci \<in> set c"
  with assms have "line_ok (product_map_of (find_by_ids d ids)) ci"
    by (simp add: list_all_iff)
  then obtain pdoc where "product_map_of (find_by_ids d ids) (ci_product_id ci) = Some pdoc"
    by (rule line_okE)
  then show "product_map_of (find_by_ids d ids) (ci_product_id ci)
           = catalog_lookup d (ci_product_id ci)"
    by (simp add: product_map_of_find split: if_splits)
qed

lemma checkout_success_catalog:
  assumes "checkout d new_id payload = (Inr res, d')"
  obtains its sub where
      "list_all (line_ok (catalog_lookup d)) (cart payload)"
      "cart_sum (catalog_lookup d) (cart payload) (Finite 0) = Some sub"
      "list_all2 (is_snapshot (catalog_lookup d)) (cart payload) its"
      "res = response_of payload new_id (order_of payload its sub)"
      "d' = d\<lparr>order_coll := order_coll d @ [(new_id, order_of payload its sub)]\<rparr>"
proof -
  from assms obtain ids its sub where
    ids: "object_ids (cart payload) = Inr ids" and
    loop: "cart_loop (product_map_of (find_by_ids d ids)) (cart payload) [] (Finite 0) = Inr (its, sub)" and
    res: "res = response_of payload new_id (order_of payload its sub)" and
    d': "d' = d\<lparr>order_coll := order_coll d @ [(new_id, order_of payload its sub)]\<rparr>"
    by (rule checkout_success)
  let ?pm = "product_map_of (find_by_ids d ids)"
  from cart_loop_Inr [OF loop] have
    ok: "list_all (line_ok ?pm) (cart payload)" and
    sum: "cart_sum ?pm (cart payload) (Finite 0) = Some sub" and
    snap: "list_all2 (is_snapshot ?pm) (cart payload) its"
    by auto
  note agree = resolved_in_catalog [OF ok]
  have "list_all (line_ok (catalog_lookup d)) (cart payload)"
    using ok list_all_line_ok_cong [OF agree] by simp
  moreover have "cart_sum (catalog_lookup d) (cart payload) (Finite 0) = Some sub"
    using sum cart_sum_cong [OF agree] by simp
  moreover have "list_all2 (is_snapshot (catalog_lookup d)) (cart payload) its"
    using snap list_all2_snapshot_cong [OF agree] by simp
  ultimately show ?thesis using that res d' by blast
qed

lemma shipping_rule_nonneg: "nonneg (shipping_rule sub)"
  by (simp add: shipping_rule_def nonneg_def)


subsection \<open>Acceptance\<close>

lemma canonical_id_valid: "canonical_id s \<Longrightarrow> \<not> isl (ObjectId s)"
  by (simp add: canonical_id_def)

text \<open>Checkout accepts a cart whose lines are all in canonical form and acceptable.\<close>

lemma checkout_accepts:
  assumes "\<forall>ci \<in> set (cart payload). canonical_id (ci_product_id ci) \<and> line_ok (catalog_lookup d) ci"
  shows "\<exists>its sub.
    checkout d new_id payload =
      (Inr (response_of payload new_id (order_of payload its sub)),
       d\<lparr>order_coll := order_coll d @ [(new_id, order_of payload its sub)]\<rparr>) \<and>
    list_all2 (is_snapshot (catalog_lookup d)) (cart payload) its \<and>
    cart_sum (catalog_lookup d) (cart payload) (Finite 0) = Some sub"
proof -
  define ids where "ids = map (\<lambda>ci. oid_of (ci_product_id ci)) (cart payload)"
  let ?pm = "product_map_of (find_by_ids d ids)"
  have "\<forall>ci \<in> set (cart payload). \<not> isl (ObjectId (ci_product_id ci))"
    using assms canonical_id_valid by blast
  then have ids: "object_ids (cart payload) = Inr ids"
    unfolding ids_def by (rule object_ids_good)
  have agree: "\<forall>ci \<in> set (cart payload). ?pm (ci_product_id ci) = catalog_lookup d (ci_product_id ci)"
  proof
    fix ci assume ci: "ci \<in> set (cart payload)"
    with assms have "canonical_id (ci_product_id ci)" by blast
    from canonical_id_mem [OF ci this] have "ci_product_id ci \<in> set ids"
      by (simp add: ids_def)
    then show "?pm (ci_product_id ci) = catalog_lookup d (ci_product_id ci)"
      by (simp add: product_map_of_find)
  qed
  have "list_all (line_ok (catalog_lookup d)) (cart payload)"
    using assms by (simp add: list_all_iff)
  then have ok: "list_all (line_ok ?pm) (cart payload)"
    using list_all_line_ok_cong [OF agree] by simp
  from cart_loop_ok [OF ok] obtain its sub where
    loop: "cart_loop ?pm (cart payload) [] (Finite 0) = Inr (its, sub)"
    by blast
  from cart_loop_Inr [OF loop] have
    sum: "cart_sum ?pm (cart payload) (Finite 0) = Some sub" and
    snap: "list_all2 (is_snapshot ?pm) (cart payload) its"
    by auto
  have "nonneg (Finite 0)" by (simp add: nonneg_def)
  from cart_sum_nonneg [OF ok this sum] have nn: "nonneg sub" .
  have "checkout d new_id payload =
      (Inr (response_of payload new_id (order_of payload its sub)),
       d\<lparr>order_coll := order_coll d @ [(new_id, order_of payload its sub)]\<rparr>)"
    using ids loop
  proof (rule checkout_order_stored)
    show "new_Order payload its (py_round2 sub) (py_round2 (shipping_rule sub))
      (py_round2 (fadd sub (shipping_rule sub)))
      (if req_payment_method payload = ''card'' then ''paid'' else ''pending'')
      = Inr (order_of payload its sub)"
      by (intro new_Order_ok py_round2_nonneg fadd_nonneg nn shipping_rule_nonneg)
  qed
  moreover have "list_all2 (is_snapshot (catalog_lookup d)) (cart payload) its"
    using snap list_all2_snapshot_cong [OF agree] by simp
  moreover have "cart_sum (catalog_lookup d) (cart payload) (Finite 0) = Some sub"
    using sum cart_sum_cong [OF agree] by simp
  ultimately show ?thesis by blast
qed

subsection \<open>Sample runs\<close>

lemma run_card:
  "checkout demo_db id_order
     (demo_req ''card'' [line id_1000 3]) =
   (Inr \<lparr>order_id = id_order, res_total = rnd (1347 / 100),
         res_status = ''paid'',
         payment = Some \<lparr>provider = ''mock'', pay_status = ''succeeded'',
                         transaction_id = id_order\<rparr>\<rparr>,
    demo_db\<lparr>order_coll :=
      [(id_order,
        demo_order ''card''
          [\<lparr>oi_product_id = id_1000, oi_title = ''Jaggery Powder 1kg'',
            oi_price = rnd (449 / 100), oi_quantity = 3\<rparr>]
          (rnd (1347 / 100)) (Finite 0) (rnd (1347 / 100)) ''paid'')]\<rparr>)"
  by code_simp

lemma run_cod:
  "checkout demo_db id_order
     (demo_req ''cod'' [line id_500 2]) =
   (Inr \<lparr>order_id = id_order, res_total = rnd (598 / 100),
         res_status = ''pending'', payment = None\<rparr>,
    demo_db\<lparr>order_coll :=
      [(id_order,
        demo_order ''cod''
          [\<lparr>oi_product_id = id_500, oi_title = ''Jaggery Powder 500g'',
            oi_price = rnd (249 / 100), oi_quantity = 2\<rparr>]
          (rnd (498 / 100)) (Finite 1) (rnd (598 / 100)) ''pending'')]\<rparr>)"
  by code_simp

lemma run_penny:
  "checkout penny_db id_order
     (demo_req ''cod'' [line id_cube 1]) =
   (Inr \<lparr>order_id = id_order, res_total = rnd (114 / 100),
         res_status = ''pending'', payment = None\<rparr>,
    penny_db\<lparr>order_coll :=
      [(id_order,
        demo_order ''cod''
          [\<lparr>oi_product_id = id_cube, oi_title = ''Jaggery Cube'',
            oi_price = rnd (14 / 100), oi_quantity = 1\<rparr>]
          (rnd (14 / 100)) (Finite 1) (rnd (114 / 100)) ''pending'')]\<rparr>)"
  by code_simp

lemma penny_sum:
  "cart_sum (catalog_lookup penny_db) (cart (demo_req ''cod'' [line id_cube 1])) (Finite 0)
     = Some (rnd (14 / 100))"
  by code_simp

lemma penny_claimed_total:
  "fadd (py_round2 (rnd (14 / 100))) (py_round2 (Finite 1))
     = Finite (2567051787601183 / 2251799813685248)"
  by code_simp

lemma penny_stored_total: "rnd (114 / 100) = Finite (5134103575202365 / 4503599627370496)"
  by code_simp

subsection \<open>Seeding\<close>

lemma find_by_skus_seed_skus:
  "find_by_skus d seed_skus = filter has_seed_sku (product_coll d)"
proof -
  have "(case p_sku doc of None \<Rightarrow> False | Some s \<Rightarrow> s \<in> set seed_skus) = has_seed_sku doc" for doc
    by (cases "p_sku doc") (auto simp: has_seed_sku_def seed_skus_def)
  then show ?thesis by (simp add: find_by_skus_def)
qed

lemma has_seed_sku_seeds: "has_seed_sku (seed_p1 a)" "has_seed_sku (seed_p2 b)"
  by (simp_all add: has_seed_sku_def seed_p1_def seed_p2_def)

text \<open>
  With a handle that admits the truth test, seeding goes by the existence of a product with
  a seed SKU, and a second call finds what the first one left.
\<close>

lemma seed_products_testable:
  "seed_products (PymongoDb True) d a b =
     (if list_ex has_seed_sku (product_coll d)
      then (Inr \<lparr>inserted = 0, message = Some ''Products already exist''\<rparr>, d)
      else (Inr \<lparr>inserted = 2, message = None\<rparr>,
            d\<lparr>product_coll := product_coll d @ [seed_p1 a, seed_p2 b]\<rparr>))"
proof -
  have "(filter has_seed_sku (product_coll d) \<noteq> []) = list_ex has_seed_sku (product_coll d)"
    by (simp add: filter_empty_conv list_ex_iff)
  then show ?thesis
    by (simp add: seed_products_def find_by_skus_seed_skus create_product_document_def)
qed

lemma seed_products_testable_twice:
  "seed_products (PymongoDb True) (snd (seed_products (PymongoDb True) d a b)) a' b' =
     (Inr \<lparr>inserted = 0, message = Some ''Products already exist''\<rparr>,
      snd (seed_products (PymongoDb True) d a b)) \<and>
   length (filter has_seed_sku (product_coll (snd (seed_products (PymongoDb True) d a b)))) =
     (if list_ex has_seed_sku (product_coll d)
      then length (filter has_seed_sku (product_coll d)) else 2)"
proof (cases "list_ex has_seed_sku (product_coll d)")
  case True
  then show ?thesis by (simp add: seed_products_testable)
next
  case False
  then have "filter has_seed_sku (product_coll d) = []"
    by (simp add: filter_empty_conv list_ex_iff)
  with False show ?thesis
    by (simp add: seed_products_testable has_seed_sku_seeds)
qed

text \<open>Without a database nothing is looked up and nothing can be inserted.\<close>

lemma seed_products_no_db:
  "seed_products NoDb d a b = (Inl (HTTPException 500 (ExnText StoreError)), d)"
  by (simp add: seed_products_def create_product_document_def)

lemma seed_products_testable_demo:
  "seed_products (PymongoDb True) empty_db id_500 id_1000 =
     (Inr \<lparr>inserted = 2, message = None\<rparr>, demo_db) \<and>
   seed_products (PymongoDb True) demo_db id_cube id_absent =
     (Inr \<lparr>inserted = 0, message = Some ''Products already exist''\<rparr>, demo_db) \<and>
   length (filter has_seed_sku (product_coll demo_db)) = 2"
  by (simp add: seed_products_testable empty_db_def demo_db_def id_500_def id_1000_def
      has_seed_sku_seeds)

subsection \<open>An identifier with whitespace\<close>

lemma run_spaced_id:
  "ObjectId ''65f0a1b2c3d4e5f60123  45'' = Inr ''65f0a1b2c3d4e5f6012345'' \<and>
   checkout demo_db id_order (demo_req ''cod'' [line ''65f0a1b2c3d4e5f60123  45'' 1]) =
     (Inl (HTTPException 404 (Msg ''Product 65f0a1b2c3d4e5f60123  45 not found'')), demo_db)"
  by code_simp

section \<open>The claims\<close>

subsection \<open>C1: order items and subtotal\<close>

text \<open>
  Claim C1, as amended. Let every cart line reference an existing product by its canonical
  identifier and meet the constraints of \<open>OrderItem\<close> (the product has a title, its price is
  \<open>>= 0\<close>, the quantity is \<open>>= 1\<close> and within the float range). Then checkout succeeds and
  persists one order, whose items are exactly one snapshot per cart line, in cart order, each
  carrying the line's product identifier and quantity and the product's title and unit price
  as read from the catalog; and the persisted subtotal is the float sum over the cart of
  price times quantity, rounded to two decimals.
\<close>

theorem checkout_items_and_subtotal:
  assumes "\<forall>ci \<in> set (cart payload). canonical_id (ci_product_id ci) \<and> line_ok (catalog_lookup d) ci"
  shows "\<exists>res ord sub.
    checkout d new_id payload = (Inr res, d\<lparr>order_coll := order_coll d @ [(new_id, ord)]\<rparr>) \<and>
    list_all2 (is_snapshot (catalog_lookup d)) (cart payload) (items ord) \<and>
    cart_sum (catalog_lookup d) (cart payload) (Finite 0) = Some sub \<and>
    subtotal ord = py_round2 sub"
proof -
  from checkout_accepts [OF assms, of new_id] obtain its sub where
    run: "checkout d new_id payload =
      (Inr (response_of payload new_id (order_of payload its sub)),
       d\<lparr>order_coll := order_coll d @ [(new_id, order_of payload its sub)]\<rparr>)" and
    snap: "list_all2 (is_snapshot (catalog_lookup d)) (cart payload) its" and
    sum: "cart_sum (catalog_lookup d) (cart payload) (Finite 0) = Some sub"
    by blast
  have "items (order_of payload its sub) = its" "subtotal (order_of payload its sub) = py_round2 sub"
    by (simp_all add: order_of_def)
  with run snap sum show ?thesis by metis
qed

text \<open>A two-line cart over the seeded catalog.\<close>

theorem checkout_items_and_subtotal_witness:
  "list_all (\<lambda>ci. canonical_id (ci_product_id ci) \<and> line_ok (catalog_lookup demo_db) ci)
      (cart (demo_req ''cod'' [line id_500 2, line id_1000 3])) \<and>
   (\<exists>res ord sub.
      checkout demo_db id_order (demo_req ''cod'' [line id_500 2, line id_1000 3]) =
        (Inr res, demo_db\<lparr>order_coll := order_coll demo_db @ [(id_order, ord)]\<rparr>) \<and>
      list_all2 (is_snapshot (catalog_lookup demo_db))
        (cart (demo_req ''cod'' [line id_500 2, line id_1000 3])) (items ord) \<and>
      cart_sum (catalog_lookup demo_db) (cart (demo_req ''cod'' [line id_500 2, line id_1000 3]))
        (Finite 0) = Some sub \<and>
      subtotal ord = py_round2 sub)"
proof -
  have h: "\<forall>ci \<in> set (cart (demo_req ''cod'' [line id_500 2, line id_1000 3])).
      canonical_id (ci_product_id ci) \<and> line_ok (catalog_lookup demo_db) ci"
    by code_simp
  from h have h': "list_all (\<lambda>ci. canonical_id (ci_product_id ci) \<and> line_ok (catalog_lookup demo_db) ci)
      (cart (demo_req ''cod'' [line id_500 2, line id_1000 3]))"
    by (simp only: list_all_iff)
  from h' checkout_items_and_subtotal [OF h, of id_order] show ?thesis by (rule conjI)
qed

text \<open>
  The claim as stated asks this of every cart whose lines reference existing products. A
  line with quantity \<open>-2\<close> references an existing product, and checkout answers 500 and
  persists nothing: the \<open>OrderItem\<close> constructor rejects the quantity.
\<close>

theorem checkout_items_counterexample:
  "canonical_id id_500 \<and> catalog_lookup demo_db id_500 = Some (seed_p1 id_500) \<and>
   canonical_id id_1000 \<and> catalog_lookup demo_db id_1000 = Some (seed_p2 id_1000) \<and>
   checkout demo_db id_order (demo_req ''cod'' [line id_500 1, line id_1000 (- 2)]) =
     (Inl (HTTPException 500 (ExnText (ValidationError [''quantity'']))), demo_db)"
  by code_simp

subsection \<open>C2: the shipping charge\<close>



subsection \<open>C3: the stored total\<close>

text \<open>
  Claim C3, as amended. For every successful checkout the stored total is
  \<open>round(subtotal + shipping, 2)\<close>: the unrounded subtotal and the shipping charge are added
  first, and the sum is then rounded to two decimals. The total returned to the client is the
  stored total.
\<close>

theorem checkout_total_rounds_sum:
  assumes "checkout d new_id payload = (Inr res, d')"
  shows "\<exists>ord sub.
    order_coll d' = order_coll d @ [(order_id res, ord)] \<and>
    cart_sum (catalog_lookup d) (cart payload) (Finite 0) = Some sub \<and>
    total ord = py_round2 (fadd sub (if fge sub (Finite 10) then Finite 0 else Finite 1)) \<and>
    res_total res = total ord"
proof -
  from assms obtain its sub where
    sum: "cart_sum (catalog_lookup d) (cart payload) (Finite 0) = Some sub" and
    res: "res = response_of payload new_id (order_of payload its sub)" and
    d': "d' = d\<lparr>order_coll := order_coll d @ [(new_id, order_of payload its sub)]\<rparr>"
    by (rule checkout_success_catalog)
  have "total (order_of payload its sub)
        = py_round2 (fadd sub (if fge sub (Finite 10) then Finite 0 else Finite 1))"
    by (simp add: order_of_def shipping_rule_def)
  moreover have "order_coll d' = order_coll d @ [(order_id res, order_of payload its sub)]"
    by (simp add: d' res response_of_def)
  moreover have "res_total res = total (order_of payload its sub)"
    by (simp add: res response_of_def)
  ultimately show ?thesis using sum by blast
qed

text \<open>Three packs of 1kg at 4.49: subtotal 13.47, shipping 0.0, total 13.47.\<close>

theorem checkout_total_rounds_sum_witness:
  "checkout demo_db id_order (demo_req ''card'' [line id_1000 3]) =
     (Inr \<lparr>order_id = id_order, res_total = rnd (1347 / 100), res_status = ''paid'',
           payment = Some \<lparr>provider = ''mock'', pay_status = ''succeeded'',
                           transaction_id = id_order\<rparr>\<rparr>,
      demo_db\<lparr>order_coll :=
        [(id_order,
          demo_order ''card''
            [\<lparr>oi_product_id = id_1000, oi_title = ''Jaggery Powder 1kg'',
              oi_price = rnd (449 / 100), oi_quantity = 3\<rparr>]
            (rnd (1347 / 100)) (Finite 0) (rnd (1347 / 100)) ''paid'')]\<rparr>) \<and>
   (\<exists>ord sub.
      order_coll (demo_db\<lparr>order_coll :=
        [(id_order,
          demo_order ''card''
            [\<lparr>oi_product_id = id_1000, oi_title = ''Jaggery Powder 1kg'',
              oi_price = rnd (449 / 100), oi_quantity = 3\<rparr>]
            (rnd (1347 / 100)) (Finite 0) (rnd (1347 / 100)) ''paid'')]\<rparr>)
        = order_coll demo_db @ [(id_order, ord)] \<and>
      cart_sum (catalog_lookup demo_db) (cart (demo_req ''card'' [line id_1000 3])) (Finite 0)
        = Some sub \<and>
      total ord = py_round2 (fadd sub (if fge sub (Finite 10) then Finite 0 else Finite 1)) \<and>
      rnd (1347 / 100) = total ord)"
  using checkout_total_rounds_sum [OF run_card] run_card by simp

text \<open>
  The claim as stated has the total be \<open>round(subtotal, 2) + round(shipping, 2)\<close>, not
  rounded after the addition. In floats the two differ: for one item priced 0.14 the stored
  total is 1.14, while rounding first and adding gives 1.1400000000000001.
\<close>

theorem checkout_total_counterexample:
  "checkout penny_db id_order (demo_req ''cod'' [line id_cube 1]) =
     (Inr \<lparr>order_id = id_order, res_total = rnd (114 / 100), res_status = ''pending'',
           payment = None\<rparr>,
      penny_db\<lparr>order_coll :=
        [(id_order,
          demo_order ''cod''
            [\<lparr>oi_product_id = id_cube, oi_title = ''Jaggery Cube'',
              oi_price = rnd (14 / 100), oi_quantity = 1\<rparr>]
            (rnd (14 / 100)) (Finite 1) (rnd (114 / 100)) ''pending'')]\<rparr>) \<and>
   cart_sum (catalog_lookup penny_db) (cart (demo_req ''cod'' [line id_cube 1])) (Finite 0)
     = Some (rnd (14 / 100)) \<and>
   rnd (114 / 100) = Finite (5134103575202365 / 4503599627370496) \<and>
   fadd (py_round2 (rnd (14 / 100))) (py_round2 (Finite 1))
     = Finite (2567051787601183 / 2251799813685248) \<and>
   rnd (114 / 100) \<noteq> fadd (py_round2 (rnd (14 / 100))) (py_round2 (Finite 1))"
proof -
  have ne: "rnd (114 / 100) \<noteq> fadd (py_round2 (rnd (14 / 100))) (py_round2 (Finite 1))"
    unfolding penny_claimed_total penny_stored_total by simp
  from run_penny penny_sum penny_stored_total penny_claimed_total ne show ?thesis
    by (intro conjI)
qed

subsection \<open>C4: payment method, status and payment object\<close>

text \<open>
  Claim C4. For every successful checkout the returned order identifier is the one the store
  assigned; if the payment method is exactly \<open>card\<close> the status is \<open>paid\<close> and the
  result carries the mock payment object whose transaction identifier is the returned order
  identifier; for any other payment method the status is \<open>pending\<close> and there is no
  payment object.
\<close>

theorem checkout_payment_branch:
  assumes "checkout d new_id payload = (Inr res, d')"
  shows "order_id res = new_id \<and>
    (if req_payment_method payload = ''card''
     then res_status res = ''paid'' \<and>
          payment res = Some \<lparr>provider = ''mock'', pay_status = ''succeeded'',
                               transaction_id = order_id res\<rparr>
     else res_status res = ''pending'' \<and> payment res = None)"
proof -
  from assms obtain ids its sub where
    res: "res = response_of payload new_id (order_of payload its sub)"
    by (rule checkout_success)
  show ?thesis
    by (simp add: res response_of_def order_of_def)
qed

text \<open>A card checkout and a cash-on-delivery checkout.\<close>

theorem checkout_payment_branch_witness:
  "checkout demo_db id_order (demo_req ''card'' [line id_1000 3]) =
     (Inr \<lparr>order_id = id_order, res_total = rnd (1347 / 100), res_status = ''paid'',
           payment = Some \<lparr>provider = ''mock'', pay_status = ''succeeded'',
                           transaction_id = id_order\<rparr>\<rparr>,
      demo_db\<lparr>order_coll :=
        [(id_order,
          demo_order ''card''
            [\<lparr>oi_product_id = id_1000, oi_title = ''Jaggery Powder 1kg'',
              oi_price = rnd (449 / 100), oi_quantity = 3\<rparr>]
            (rnd (1347 / 100)) (Finite 0) (rnd (1347 / 100)) ''paid'')]\<rparr>) \<and>
   checkout demo_db id_order (demo_req ''cod'' [line id_500 2]) =
     (Inr \<lparr>order_id = id_order, res_total = rnd (598 / 100), res_status = ''pending'',
           payment = None\<rparr>,
      demo_db\<lparr>order_coll :=
        [(id_order,
          demo_order ''cod''
            [\<lparr>oi_product_id = id_500, oi_title = ''Jaggery Powder 500g'',
              oi_price = rnd (249 / 100), oi_quantity = 2\<rparr>]
            (rnd (498 / 100)) (Finite 1) (rnd (598 / 100)) ''pending'')]\<rparr>)"
  using checkout_payment_branch [OF run_card] checkout_payment_branch [OF run_cod]
    run_card run_cod
  by (intro conjI)

subsection \<open>C5: a missing product\<close>




subsection \<open>C6: seeding is idempotent\<close>

text \<open>
  Claim C6. Seeding is to be idempotent by SKU existence: nothing is inserted when a product
  with a seed SKU exists, the two hardcoded products are inserted otherwise, and two calls in
  sequence leave exactly 2 seeded products. With a handle that admits the truth test the code
  does so (\<open>seed_products_testable\<close>, \<open>seed_products_testable_twice\<close>). But the
  existence query is guarded by \<open>if db\<close>, where the diagnostic endpoint of the same file
  tests \<open>db is not None\<close>: a handle that refuses the truth test makes every call end in
  the 500 error. On the empty catalog the first call inserts nothing, the second does the
  same, and no seeded product exists afterwards.
\<close>

theorem seed_products_refused_truth_test:
  "\<not> list_ex has_seed_sku (product_coll empty_db) \<and>
   seed_products (PymongoDb False) empty_db id_500 id_1000 =
     (Inl (HTTPException 500 (ExnText NotImplementedError)), empty_db) \<and>
   seed_products (PymongoDb False)
       (snd (seed_products (PymongoDb False) empty_db id_500 id_1000)) id_cube id_absent =
     (Inl (HTTPException 500 (ExnText NotImplementedError)), empty_db) \<and>
   length (filter has_seed_sku (product_coll
       (snd (seed_products (PymongoDb False)
              (snd (seed_products (PymongoDb False) empty_db id_500 id_1000))
              id_cube id_absent)))) = 0"
  by (simp add: seed_products_def empty_db_def)

subsection \<open>C7: checkout leaves the catalog alone\<close>

text \<open>
  Claim C7. For every checkout call, successful or failed, the product collection after the
  call is the product collection before it: every product record, with its stock flag, price
  and title, is untouched. The orders that were there before the call are untouched too; the
  only write is the order appended on success.
\<close>

theorem checkout_keeps_catalog:
  "product_coll (snd (checkout d new_id payload)) = product_coll d \<and>
   take (length (order_coll d)) (order_coll (snd (checkout d new_id payload))) = order_coll d"
  by (cases rule: checkout_cases [of payload d new_id]) simp_all

text \<open>The seeded catalog after a card checkout.\<close>

theorem checkout_keeps_catalog_witness:
  "product_coll (snd (checkout demo_db id_order (demo_req ''card'' [line id_1000 3])))
     = [seed_p1 id_500, seed_p2 id_1000] \<and>
   take 0 (order_coll (snd (checkout demo_db id_order (demo_req ''card'' [line id_1000 3])))) = []"
  using checkout_keeps_catalog [of demo_db id_order "demo_req ''card'' [line id_1000 3]"]
  by (simp add: demo_db_def id_500_def id_1000_def)

subsection \<open>C8: a quantity that is not positive\<close>

text \<open>
  Claim C8, as amended. \<open>CartItem\<close> does not constrain the quantity, but \<open>OrderItem\<close>
  requires \<open>quantity >= 1\<close>. For a checkout request whose cart lines all reference existing
  products by their canonical identifiers and which contains a line with quantity
  \<open><= 0\<close>, checkout is rejected with the 500 error and the database is unchanged: no order
  is persisted.
\<close>

theorem checkout_rejects_nonpositive_quantity:
  assumes "\<forall>c \<in> set (cart payload).
             canonical_id (ci_product_id c) \<and> catalog_lookup d (ci_product_id c) \<noteq> None"
    and "\<exists>c \<in> set (cart payload). ci_quantity c \<le> 0"
  shows "\<exists>e. checkout d new_id payload = (Inl (HTTPException 500 (ExnText e)), d)"
proof (cases rule: checkout_cases [of payload d new_id])
  case (bad_ids e)
  then show ?thesis by blast
next
  case (loop_failed ids f)
  let ?pm = "product_map_of (find_by_ids d ids)"
  have idsdef: "ids = map (\<lambda>ci. oid_of (ci_product_id ci)) (cart payload)"
    using loop_failed(1) by (rule object_ids_Inr)
  have found: "?pm (ci_product_id c) \<noteq> None" if c: "c \<in> set (cart payload)" for c
  proof -
    from c assms(1) have "canonical_id (ci_product_id c)" by blast
    from canonical_id_mem [OF c this] have "ci_product_id c \<in> set ids"
      by (simp add: idsdef)
    then show ?thesis using c assms(1) by (simp add: product_map_of_find)
  qed
  from cart_loop_failure [OF loop_failed(2)] found obtain e where
    "f = HTTPException 500 (ExnText e)" by blast
  with loop_failed(3) show ?thesis by blast
next
  case (order_rejected ids its sub e)
  then show ?thesis by blast
next
  case (stored ids its sub)
  from cart_loop_Inr [OF stored(2)] have
    ok: "list_all (line_ok (product_map_of (find_by_ids d ids))) (cart payload)"
    by blast
  from assms(2) obtain c where c: "c \<in> set (cart payload)" "ci_quantity c \<le> 0" by blast
  from ok c(1) have "line_ok (product_map_of (find_by_ids d ids)) c"
    by (simp add: list_all_iff)
  then have "1 \<le> ci_quantity c" by (rule line_okE)
  with c(2) show ?thesis by simp
qed

text \<open>One line with quantity 0.\<close>

theorem checkout_rejects_nonpositive_quantity_witness:
  "list_all (\<lambda>c. canonical_id (ci_product_id c) \<and> catalog_lookup demo_db (ci_product_id c) \<noteq> None)
     (cart (demo_req ''cod'' [line id_500 0])) \<and>
   (\<exists>c \<in> set (cart (demo_req ''cod'' [line id_500 0])). ci_quantity c \<le> 0) \<and>
   (\<exists>e. checkout demo_db id_order (demo_req ''cod'' [line id_500 0]) =
      (Inl (HTTPException 500 (ExnText e)), demo_db))"
proof -
  have a: "\<forall>c \<in> set (cart (demo_req ''cod'' [line id_500 0])).
      canonical_id (ci_product_id c) \<and> catalog_lookup demo_db (ci_product_id c) \<noteq> None"
    by code_simp
  have b: "\<exists>c \<in> set (cart (demo_req ''cod'' [line id_500 0])). ci_quantity c \<le> 0"
    by (simp add: demo_req_def line_def)
  from a have a': "list_all
     (\<lambda>c. canonical_id (ci_product_id c) \<and> catalog_lookup demo_db (ci_product_id c) \<noteq> None)
     (cart (demo_req ''cod'' [line id_500 0]))"
    by (simp only: list_all_iff)
  from checkout_rejects_nonpositive_quantity [OF a b, of id_order] a' b show ?thesis
    by (intro conjI)
qed

text \<open>
  The claim as stated has checkout accept such a line and process the order. For one line
  with quantity 0 on an existing product, checkout answers 500 with the validation error of
  the field \<open>quantity\<close> and persists nothing.
\<close>

theorem checkout_rejects_nonpositive_quantity_counterexample:
  "canonical_id id_500 \<and> catalog_lookup demo_db id_500 = Some (seed_p1 id_500) \<and>
   checkout demo_db id_order (demo_req ''cod'' [line id_500 0]) =
     (Inl (HTTPException 500 (ExnText (ValidationError [''quantity'']))), demo_db)"
  by code_simp

subsection \<open>C9: the empty cart\<close>

text \<open>
  Claim C9. A checkout request with an empty cart is not rejected: checkout succeeds and
  persists an order with no items, subtotal 0.0, shipping 1.0 and total 1.0, and returns the
  success result with total 1.0.
\<close>

theorem checkout_empty_cart:
  assumes "cart payload = []"
  shows "checkout d new_id payload =
    (Inr \<lparr>order_id = new_id, res_total = Finite 1,
          res_status = (if req_payment_method payload = ''card'' then ''paid'' else ''pending''),
          payment = (if req_payment_method payload = ''card''
                     then Some \<lparr>provider = ''mock'', pay_status = ''succeeded'',
                                transaction_id = new_id\<rparr>
                     else None)\<rparr>,
     d\<lparr>order_coll := order_coll d @
         [(new_id,
           \<lparr>customer_name = req_name payload, email = req_email payload,
            phone = req_phone payload, address_line = req_address_line payload,
            city = req_city payload, pincode = req_pincode payload,
            payment_method = req_payment_method payload, items = [],
            subtotal = Finite 0, shipping = Finite 1, total = Finite 1,
            status = (if req_payment_method payload = ''card'' then ''paid'' else ''pending'')\<rparr>)]\<rparr>)"
proof -
  have ids: "object_ids (cart payload) = Inr []" by (simp add: assms)
  have loop: "cart_loop (product_map_of (find_by_ids d [])) (cart payload) [] (Finite 0)
              = Inr ([], Finite 0)"
    by (simp add: assms)
  have ship: "shipping_rule (Finite 0) = Finite 1" by (simp add: shipping_rule_def)
  have tot: "fadd (Finite 0) (Finite 1) = Finite 1" by (simp add: rnd_1)
  have ord: "order_of payload [] (Finite 0) =
           \<lparr>customer_name = req_name payload, email = req_email payload,
            phone = req_phone payload, address_line = req_address_line payload,
            city = req_city payload, pincode = req_pincode payload,
            payment_method = req_payment_method payload, items = [],
            subtotal = Finite 0, shipping = Finite 1, total = Finite 1,
            status = (if req_payment_method payload = ''card'' then ''paid'' else ''pending'')\<rparr>"
    unfolding order_of_def ship tot py_round2_0 py_round2_1 ..
  have "new_Order payload [] (py_round2 (Finite 0)) (py_round2 (shipping_rule (Finite 0)))
      (py_round2 (fadd (Finite 0) (shipping_rule (Finite 0))))
      (if req_payment_method payload = ''card'' then ''paid'' else ''pending'')
      = Inr (order_of payload [] (Finite 0))"
    unfolding ship tot py_round2_0 py_round2_1
    by (intro new_Order_ok [of "Finite 0", unfolded ship tot py_round2_0 py_round2_1])
       (simp_all add: nonneg_def)
  from checkout_order_stored [OF ids loop this, of new_id] show ?thesis
    unfolding ord by (simp add: response_of_def)
qed

text \<open>An empty cart, cash on delivery.\<close>

theorem checkout_empty_cart_witness:
  "cart (demo_req ''cod'' []) = [] \<and>
   checkout demo_db id_order (demo_req ''cod'' []) =
     (Inr \<lparr>order_id = id_order, res_total = Finite 1, res_status = ''pending'', payment = None\<rparr>,
      demo_db\<lparr>order_coll := order_coll demo_db @
        [(id_order, demo_order ''cod'' [] (Finite 0) (Finite 1) (Finite 1) ''pending'')]\<rparr>)"
proof -
  have a: "cart (demo_req ''cod'' []) = []" by (simp add: demo_req_def)
  from checkout_empty_cart [OF a, of demo_db id_order] a show ?thesis
    by (simp add: demo_req_def demo_order_def)
qed

subsection \<open>C10: a malformed product identifier\<close>



end
